theory Spec2Isabelle
  imports Main "HOL-Library.Word"
begin

section \<open>The contract DriverAssignmentTracker\<close>

text \<open>
  The ledger is the Solidity contract \<^verbatim>\<open>DriverAssignmentTracker\<close>: one dynamic array
  of \<^verbatim>\<open>Assignment\<close> structs and five mappings that index it. A Solidity \<^verbatim>\<open>string\<close>
  is a sequence of bytes, which is what the type \<^typ>\<open>string\<close> is. A \<^verbatim>\<open>uint256\<close> that
  a caller supplies (the timestamp) is a 256-bit word. Array positions and lengths are
  natural numbers: the only arithmetic on them is \<^verbatim>\<open>ids.length - 1 - i\<close> under the loop
  guard \<^verbatim>\<open>i < ids.length\<close> and \<^verbatim>\<open>i++\<close> below an array length, neither of which can
  leave the range of \<^verbatim>\<open>uint256\<close>.
\<close>

type_synonym uint256 = "256 word"
type_synonym bytes = string

record Assignment =
  busId :: string
  source :: string
  destination :: string
  driverId :: string
  timestamp :: uint256

text \<open>
  A mapping of Solidity has no notion of an absent key: every key holds a value, the
  zero value of its type until it is written (the empty array, the number 0). So a
  mapping is a total function. The three mappings keyed by \<^verbatim>\<open>bytes32\<close> are keyed by
  the result type \<open>'k\<close> of the hash function.
\<close>

record 'k tracker =
  assignments :: "Assignment list"
  byBus :: "string \<Rightarrow> nat list"
  byDriver :: "string \<Rightarrow> nat list"
  byBusDriver :: "'k \<Rightarrow> nat list"
  byBusTime :: "'k \<Rightarrow> nat"
  byDriverTime :: "'k \<Rightarrow> nat"

text \<open>The state of the contract after deployment: all storage is zero.\<close>

definition deployed :: "'k tracker" where
  "deployed =
     \<lparr>assignments = [], byBus = (\<lambda>_. []), byDriver = (\<lambda>_. []),
      byBusDriver = (\<lambda>_. []), byBusTime = (\<lambda>_. 0), byDriverTime = (\<lambda>_. 0)\<rparr>"

text \<open>
  The contract raises no error of its own (it has no \<^verbatim>\<open>require\<close> and no \<^verbatim>\<open>revert\<close>).
  The failures of its code are the ones the compiler inserts: an array read outside
  the array in the body of a function reverts with \<^verbatim>\<open>Panic(0x32)\<close>, and the getter
  generated for the public array reverts with no data when its index is outside the
  array.
\<close>

datatype error = Panic_ArrayOutOfBounds | Revert_NoData

datatype event = AssignmentRecorded nat string string uint256

subsection \<open>abi.encodePacked and keccak256\<close>

text \<open>
  \<^verbatim>\<open>abi.encodePacked\<close> writes a string as its bytes, with no length and no padding, and
  a \<^verbatim>\<open>uint256\<close> as 32 bytes, most significant byte first; it concatenates the
  encodings of its arguments.
\<close>

fun be_bytes :: "nat \<Rightarrow> nat \<Rightarrow> bytes" where
  "be_bytes 0 n = []"
| "be_bytes (Suc k) n = be_bytes k (n div 256) @ [char_of (n mod 256)]"

definition encodePacked_uint256 :: "uint256 \<Rightarrow> bytes" where
  "encodePacked_uint256 t = be_bytes 32 (unat t)"

definition encodePacked_string_string :: "string \<Rightarrow> string \<Rightarrow> bytes" where
  "encodePacked_string_string a b = a @ b"

definition encodePacked_string_uint256 :: "string \<Rightarrow> uint256 \<Rightarrow> bytes" where
  "encodePacked_string_uint256 a t = a @ encodePacked_uint256 t"

text \<open>
  \<^verbatim>\<open>keccak256\<close> is a builtin of the language and not code of the contract: every
  operation that hashes takes the hash function as its first argument \<open>keccak256\<close>,
  a function from byte strings to keys. The three key expressions of the source:
\<close>

definition busDriverKey :: "(bytes \<Rightarrow> 'k) \<Rightarrow> string \<Rightarrow> string \<Rightarrow> 'k" where
  "busDriverKey keccak256 bus drv = keccak256 (encodePacked_string_string bus drv)"

definition busTimeKey :: "(bytes \<Rightarrow> 'k) \<Rightarrow> string \<Rightarrow> uint256 \<Rightarrow> 'k" where
  "busTimeKey keccak256 bus ts = keccak256 (encodePacked_string_uint256 bus ts)"

definition driverTimeKey :: "(bytes \<Rightarrow> 'k) \<Rightarrow> string \<Rightarrow> uint256 \<Rightarrow> 'k" where
  "driverTimeKey keccak256 drv ts = keccak256 (encodePacked_string_uint256 drv ts)"

subsection \<open>recordAssignment\<close>

text \<open>
  The write: the new id is the length of the array before the push; the struct is
  pushed, the id is pushed on three index arrays and stored in the two point
  mappings, and the event is emitted. The result is the event and the new state.
\<close>

definition recordAssignment ::
  "(bytes \<Rightarrow> 'k) \<Rightarrow> string \<Rightarrow> string \<Rightarrow> string \<Rightarrow> string \<Rightarrow> uint256 \<Rightarrow> 'k tracker
     \<Rightarrow> event \<times> 'k tracker" where
  "recordAssignment keccak256 bus src dst drv ts s =
     (let id = length (assignments s);
          s1 = s\<lparr>assignments := assignments s @
                 [\<lparr>busId = bus, source = src, destination = dst, driverId = drv,
                   timestamp = ts\<rparr>]\<rparr>;
          s2 = s1\<lparr>byBus := (byBus s1)(bus := byBus s1 bus @ [id])\<rparr>;
          s3 = s2\<lparr>byDriver := (byDriver s2)(drv := byDriver s2 drv @ [id])\<rparr>;
          s4 = s3\<lparr>byBusDriver := (byBusDriver s3)
                 (busDriverKey keccak256 bus drv :=
                    byBusDriver s3 (busDriverKey keccak256 bus drv) @ [id])\<rparr>;
          s5 = s4\<lparr>byBusTime := (byBusTime s4)(busTimeKey keccak256 bus ts := id)\<rparr>;
          s6 = s5\<lparr>byDriverTime := (byDriverTime s5)(driverTimeKey keccak256 drv ts := id)\<rparr>
      in (AssignmentRecorded id bus drv ts, s6))"

subsection \<open>The queries\<close>

text \<open>A checked array read: \<^verbatim>\<open>xs[i]\<close> reverts when \<open>i\<close> is not below the length.\<close>

definition at_index :: "'a list \<Rightarrow> nat \<Rightarrow> error + 'a" where
  "at_index xs i = (if i < length xs then Inr (xs ! i) else Inl Panic_ArrayOutOfBounds)"

text \<open>
  The three list queries run the same loop,
  \<^verbatim>\<open>for (i = 0; i < ids.length; i++) results[i] = assignments[ids[ids.length - 1 - i]];\<close>
  on a result array of \<^verbatim>\<open>ids.length\<close> zero structs. Each of the three array accesses
  of the body is checked.
\<close>

definition zeroAssignment :: Assignment where
  "zeroAssignment =
     \<lparr>busId = [], source = [], destination = [], driverId = [], timestamp = 0\<rparr>"

function descending_loop ::
  "Assignment list \<Rightarrow> nat list \<Rightarrow> nat \<Rightarrow> Assignment list \<Rightarrow> error + Assignment list" where
  "descending_loop log ids i results =
     (if i < length ids then
        (if length ids - 1 - i < length ids then
           (if ids ! (length ids - 1 - i) < length log then
              (if i < length results then
                 descending_loop log ids (i + 1)
                   (results[i := log ! (ids ! (length ids - 1 - i))])
               else Inl Panic_ArrayOutOfBounds)
            else Inl Panic_ArrayOutOfBounds)
         else Inl Panic_ArrayOutOfBounds)
      else Inr results)"
  by pat_completeness auto
termination
  by (relation "measure (\<lambda>(log, ids, i, results). length ids - i)") auto

declare descending_loop.simps [simp del]

definition descending :: "Assignment list \<Rightarrow> nat list \<Rightarrow> error + Assignment list" where
  "descending log ids = descending_loop log ids 0 (replicate (length ids) zeroAssignment)"

definition getDriversByBus :: "string \<Rightarrow> 'k tracker \<Rightarrow> error + Assignment list" where
  "getDriversByBus bus s = descending (assignments s) (byBus s bus)"

definition getBusesByDriver :: "string \<Rightarrow> 'k tracker \<Rightarrow> error + Assignment list" where
  "getBusesByDriver drv s = descending (assignments s) (byDriver s drv)"

definition getAssignmentsByBusDriver ::
  "(bytes \<Rightarrow> 'k) \<Rightarrow> string \<Rightarrow> string \<Rightarrow> 'k tracker \<Rightarrow> error + Assignment list" where
  "getAssignmentsByBusDriver keccak256 bus drv s =
     descending (assignments s) (byBusDriver s (busDriverKey keccak256 bus drv))"

definition getDriverByBusTime ::
  "(bytes \<Rightarrow> 'k) \<Rightarrow> string \<Rightarrow> uint256 \<Rightarrow> 'k tracker \<Rightarrow> error + Assignment" where
  "getDriverByBusTime keccak256 bus ts s =
     (let id = byBusTime s (busTimeKey keccak256 bus ts) in at_index (assignments s) id)"

definition getBusByDriverTime ::
  "(bytes \<Rightarrow> 'k) \<Rightarrow> string \<Rightarrow> uint256 \<Rightarrow> 'k tracker \<Rightarrow> error + Assignment" where
  "getBusByDriverTime keccak256 drv ts s =
     (let id = byDriverTime s (driverTimeKey keccak256 drv ts) in at_index (assignments s) id)"

text \<open>
  The public getter \<^verbatim>\<open>assignments(i)\<close> that the compiler generates for the array: it
  returns the struct at position \<open>i\<close>, and reverts with empty return data when \<open>i\<close> is
  not below the length.
\<close>

definition assignments_getter :: "nat \<Rightarrow> 'k tracker \<Rightarrow> error + Assignment" where
  "assignments_getter i s =
     (if i < length (assignments s) then Inr (assignments s ! i) else Inl Revert_NoData)"

subsection \<open>Sequences of writes\<close>

text \<open>
  The only operation that changes the state is \<open>recordAssignment\<close>; the queries are
  \<^verbatim>\<open>view\<close> functions. A call of \<open>recordAssignment\<close> is given by its five arguments,
  which are the five fields of the struct it pushes, so a sequence of calls is a list
  of \<open>Assignment\<close> values and \<open>run\<close> is the state they lead to from deployment.
\<close>

definition recordCall :: "(bytes \<Rightarrow> 'k) \<Rightarrow> Assignment \<Rightarrow> 'k tracker \<Rightarrow> 'k tracker" where
  "recordCall keccak256 a s =
     snd (recordAssignment keccak256 (busId a) (source a) (destination a) (driverId a)
            (timestamp a) s)"

definition run_from :: "(bytes \<Rightarrow> 'k) \<Rightarrow> 'k tracker \<Rightarrow> Assignment list \<Rightarrow> 'k tracker" where
  "run_from keccak256 s ws = foldl (\<lambda>s a. recordCall keccak256 a s) s ws"

definition run :: "(bytes \<Rightarrow> 'k) \<Rightarrow> Assignment list \<Rightarrow> 'k tracker" where
  "run keccak256 ws = run_from keccak256 deployed ws"

text \<open>
  For the statements below: the positions of a list, in increasing order, whose element
  satisfies a predicate.
\<close>

definition positions :: "('a \<Rightarrow> bool) \<Rightarrow> 'a list \<Rightarrow> nat list" where
  "positions P ws = filter (\<lambda>i. P (ws ! i)) [0..<length ws]"

subsection \<open>Example calls\<close>

text \<open>
  The calls of the scenarios: two assignments of bus 7 at different times, a third at the
  time of the first with another driver, and two calls whose bus and driver identifiers
  differ but concatenate to the same string.
\<close>

definition call_a :: Assignment where
  "call_a = \<lparr>busId = ''bus-7'', source = ''Depot'', destination = ''Mall'',
              driverId = ''drv-2'', timestamp = 1000\<rparr>"

definition call_b :: Assignment where
  "call_b = \<lparr>busId = ''bus-7'', source = ''Depot'', destination = ''Park'',
              driverId = ''drv-9'', timestamp = 2000\<rparr>"

definition call_c :: Assignment where
  "call_c = \<lparr>busId = ''bus-7'', source = ''Depot'', destination = ''Zoo'',
              driverId = ''drv-9'', timestamp = 1000\<rparr>"

definition call_12_3 :: Assignment where
  "call_12_3 = \<lparr>busId = ''12'', source = ''Depot'', destination = ''Mall'',
                 driverId = ''3'', timestamp = 1000\<rparr>"

definition call_1_23 :: Assignment where
  "call_1_23 = \<lparr>busId = ''1'', source = ''Depot'', destination = ''Park'',
                 driverId = ''23'', timestamp = 2000\<rparr>"

section \<open>The encoding of the keys\<close>

text \<open>
  The packed encoding of a \<^verbatim>\<open>uint256\<close> always has 32 bytes, and determines the
  number. So the packed encoding of a string followed by a \<^verbatim>\<open>uint256\<close> determines
  both: the last 32 bytes are the number and the rest is the string.
\<close>

lemma length_be_bytes [simp]: "length (be_bytes k n) = k"
  by (induction k arbitrary: n) simp_all

lemma be_bytes_inj: "be_bytes k m = be_bytes k n \<Longrightarrow> m mod 256 ^ k = n mod 256 ^ k"
proof (induction k arbitrary: m n)
  case 0
  then show ?case by simp
next
  case (Suc k)
  from Suc.prems have hi: "be_bytes k (m div 256) = be_bytes k (n div 256)"
    and lo: "char_of (m mod 256) = (char_of (n mod 256) :: char)"
    by simp_all
  from lo have "of_char (char_of (m mod 256) :: char) = (of_char (char_of (n mod 256) :: char) :: nat)"
    by simp
  then have lo': "m mod 256 = n mod 256"
    by (simp only: of_char_of mod_mod_trivial)
  from Suc.IH [OF hi] have hi': "m div 256 mod 256 ^ k = n div 256 mod 256 ^ k" .
  have "m mod 256 ^ Suc k = 256 * (m div 256 mod 256 ^ k) + m mod 256"
    by (simp add: mod_mult2_eq)
  also have "\<dots> = 256 * (n div 256 mod 256 ^ k) + n mod 256"
    by (simp only: hi' lo')
  also have "\<dots> = n mod 256 ^ Suc k"
    by (simp add: mod_mult2_eq)
  finally show ?case .
qed

lemma encodePacked_uint256_inj:
  "encodePacked_uint256 t = encodePacked_uint256 u \<Longrightarrow> t = u"
proof -
  assume "encodePacked_uint256 t = encodePacked_uint256 u"
  then have "unat t mod 256 ^ 32 = unat u mod 256 ^ 32"
    unfolding encodePacked_uint256_def by (rule be_bytes_inj)
  moreover have "unat t < 256 ^ 32" "unat u < 256 ^ 32"
    using unsigned_less [of t, where 'a = nat] unsigned_less [of u, where 'a = nat] by simp_all
  ultimately have "unat t = unat u" by simp
  then show "t = u" by (rule word_unat_eq_iff [THEN iffD2])
qed

lemma length_encodePacked_uint256 [simp]: "length (encodePacked_uint256 t) = 32"
  by (simp add: encodePacked_uint256_def)

lemma encodePacked_string_uint256_eq_iff:
  "encodePacked_string_uint256 a t = encodePacked_string_uint256 b u \<longleftrightarrow> a = b \<and> t = u"
  by (auto simp: encodePacked_string_uint256_def dest: encodePacked_uint256_inj)

text \<open>So a hash function without collisions gives different time keys to different inputs.\<close>

lemma busTimeKey_inj:
  "inj H \<Longrightarrow> busTimeKey H a t = busTimeKey H b u \<longleftrightarrow> a = b \<and> t = u"
  by (auto simp: busTimeKey_def encodePacked_string_uint256_eq_iff dest: injD)

lemma driverTimeKey_inj:
  "inj H \<Longrightarrow> driverTimeKey H a t = driverTimeKey H b u \<longleftrightarrow> a = b \<and> t = u"
  by (auto simp: driverTimeKey_def encodePacked_string_uint256_eq_iff dest: injD)

section \<open>The state after a sequence of writes\<close>

text \<open>What one call of \<open>recordAssignment\<close> does to each component of the state.\<close>

lemma recordCall_assignments [simp]:
  "assignments (recordCall H a s) = assignments s @ [a]"
  by (simp add: recordCall_def recordAssignment_def Let_def)

lemma recordCall_byBus [simp]:
  "byBus (recordCall H a s) =
     (byBus s)(busId a := byBus s (busId a) @ [length (assignments s)])"
  by (simp add: recordCall_def recordAssignment_def Let_def)

lemma recordCall_byDriver [simp]:
  "byDriver (recordCall H a s) =
     (byDriver s)(driverId a := byDriver s (driverId a) @ [length (assignments s)])"
  by (simp add: recordCall_def recordAssignment_def Let_def)

lemma recordCall_byBusDriver [simp]:
  "byBusDriver (recordCall H a s) =
     (byBusDriver s)(busDriverKey H (busId a) (driverId a) :=
        byBusDriver s (busDriverKey H (busId a) (driverId a)) @ [length (assignments s)])"
  by (simp add: recordCall_def recordAssignment_def Let_def)

lemma recordCall_byBusTime [simp]:
  "byBusTime (recordCall H a s) =
     (byBusTime s)(busTimeKey H (busId a) (timestamp a) := length (assignments s))"
  by (simp add: recordCall_def recordAssignment_def Let_def)

lemma recordCall_byDriverTime [simp]:
  "byDriverTime (recordCall H a s) =
     (byDriverTime s)(driverTimeKey H (driverId a) (timestamp a) := length (assignments s))"
  by (simp add: recordCall_def recordAssignment_def Let_def)

lemma run_Nil [simp]: "run H [] = deployed"
  by (simp add: run_def run_from_def)

lemma run_snoc [simp]: "run H (ws @ [a]) = recordCall H a (run H ws)"
  by (simp add: run_def run_from_def)

lemma run_from_append: "run_from H s (ws @ vs) = run_from H (run_from H s ws) vs"
  by (simp add: run_from_def)

lemma run_append: "run H (ws @ vs) = run_from H (run H ws) vs"
  by (simp add: run_def run_from_def)

lemma assignments_run_from [simp]: "assignments (run_from H s ws) = assignments s @ ws"
proof (induction ws rule: rev_induct)
  case Nil
  then show ?case by (simp add: run_from_def)
next
  case (snoc a ws)
  then show ?case by (simp add: run_from_def)
qed

lemma assignments_run [simp]: "assignments (run H ws) = ws"
  by (simp add: run_def deployed_def)

text \<open>
  After the calls \<open>ws\<close> the array holds exactly \<open>ws\<close>, and each index array holds
  the positions of the calls with its key, in increasing order.
\<close>

lemma positions_Nil [simp]: "positions P [] = []"
  by (simp add: positions_def)

lemma positions_snoc [simp]:
  "positions P (ws @ [a]) = positions P ws @ (if P a then [length ws] else [])"
proof -
  have "filter (\<lambda>i. P ((ws @ [a]) ! i)) [0..<length ws] = filter (\<lambda>i. P (ws ! i)) [0..<length ws]"
    by (rule filter_cong) (simp_all add: nth_append)
  then show ?thesis by (simp add: positions_def)
qed

lemma map_nth_positions: "map ((!) ws) (positions P ws) = filter P ws"
proof -
  have "map ((!) ws) (positions P ws) = filter P (map ((!) ws) [0..<length ws])"
    by (simp add: positions_def filter_map comp_def)
  then show ?thesis by (simp add: map_nth)
qed

lemma set_positions: "set (positions P ws) = {i. i < length ws \<and> P (ws ! i)}"
  by (auto simp: positions_def)

lemma sorted_positions: "sorted_wrt (<) (positions P ws)"
  by (simp add: positions_def sorted_wrt_filter)

lemma byBus_run: "byBus (run H ws) b = positions (\<lambda>a. busId a = b) ws"
  by (induction ws arbitrary: rule: rev_induct) (auto simp: deployed_def)

lemma byDriver_run: "byDriver (run H ws) d = positions (\<lambda>a. driverId a = d) ws"
  by (induction ws arbitrary: rule: rev_induct) (auto simp: deployed_def)

lemma byBusDriver_run:
  "byBusDriver (run H ws) k = positions (\<lambda>a. busDriverKey H (busId a) (driverId a) = k) ws"
  by (induction ws arbitrary: rule: rev_induct) (auto simp: deployed_def)

section \<open>The descending loop\<close>

text \<open>
  When every stored id is a position of the log, the loop fills the whole result array
  and returns the records of the ids, last id first. After a sequence of writes that is
  the case for each of the three list queries.
\<close>

lemma descending_loop_done:
  "length ids \<le> i \<Longrightarrow> descending_loop log ids i results = Inr results"
  by (intro trans [OF descending_loop.simps]) simp

lemma descending_loop_step:
  assumes "i < length ids" "ids ! (length ids - 1 - i) < length log" "i < length results"
  shows "descending_loop log ids i results =
    descending_loop log ids (i + 1) (results[i := log ! (ids ! (length ids - 1 - i))])"
proof -
  from assms(1) have "length ids - 1 - i < length ids" by simp
  with assms show ?thesis
    by (intro trans [OF descending_loop.simps]) (simp del: One_nat_def)
qed

lemma descending_loop_panic:
  assumes "i < length ids" "\<not> ids ! (length ids - 1 - i) < length log"
  shows "descending_loop log ids i results = Inl Panic_ArrayOutOfBounds"
  using assms by (intro trans [OF descending_loop.simps]) simp

lemma descending_loop_result:
  assumes "\<forall>j\<in>set ids. j < length log" "length results = length ids" "i \<le> length ids"
  shows "descending_loop log ids i results =
    Inr (take i results @ map ((!) log) (drop i (rev ids)))"
  using assms
proof (induction "length ids - i" arbitrary: i results)
  case 0
  then show ?case by (simp add: descending_loop_done)
next
  case (Suc n)
  let ?k = "length ids - 1 - i"
  let ?x = "log ! (ids ! ?k)"
  from Suc.hyps(2) have i: "i < length ids" by simp
  then have k: "?k < length ids" by simp
  with Suc.prems(1) have inlog: "ids ! ?k < length log" by (simp del: One_nat_def)
  from i Suc.prems(2) have ires: "i < length results" by simp
  have step: "descending_loop log ids i results = descending_loop log ids (i + 1) (results[i := ?x])"
    using i inlog ires by (rule descending_loop_step)
  have ih: "descending_loop log ids (i + 1) (results[i := ?x]) =
      Inr (take (i + 1) (results[i := ?x]) @ map ((!) log) (drop (i + 1) (rev ids)))"
    using Suc.hyps(2) Suc.prems i by (intro Suc.hyps(1)) simp_all
  have t: "take (i + 1) (results[i := ?x]) = take i results @ [?x]"
    using ires by (simp add: take_Suc_conv_app_nth)
  have "rev ids ! i = ids ! ?k"
    using i by (simp add: rev_nth)
  then have d: "drop i (rev ids) = ids ! ?k # drop (i + 1) (rev ids)"
    using i by (simp add: Cons_nth_drop_Suc [symmetric])
  show ?case by (simp only: step ih t d) simp
qed

lemma descending_ok:
  assumes "\<forall>j\<in>set ids. j < length log"
  shows "descending log ids = Inr (map ((!) log) (rev ids))"
  using descending_loop_result [OF assms, of "replicate (length ids) zeroAssignment" 0]
  by (simp add: descending_def)

lemma descending_positions: "descending ws (positions P ws) = Inr (rev (filter P ws))"
proof -
  have "\<forall>j\<in>set (positions P ws). j < length ws"
    by (simp add: set_positions)
  then have "descending ws (positions P ws) = Inr (map ((!) ws) (rev (positions P ws)))"
    by (rule descending_ok)
  then show ?thesis by (simp add: rev_map [symmetric] map_nth_positions)
qed

lemma getDriversByBus_run:
  "getDriversByBus b (run H ws) = Inr (rev (filter (\<lambda>a. busId a = b) ws))"
  by (simp add: getDriversByBus_def byBus_run descending_positions)

lemma getBusesByDriver_run:
  "getBusesByDriver d (run H ws) = Inr (rev (filter (\<lambda>a. driverId a = d) ws))"
  by (simp add: getBusesByDriver_def byDriver_run descending_positions)

lemma getAssignmentsByBusDriver_run:
  "getAssignmentsByBusDriver H b d (run H ws) =
     Inr (rev (filter (\<lambda>a. busDriverKey H (busId a) (driverId a) = busDriverKey H b d) ws))"
  by (simp add: getAssignmentsByBusDriver_def byBusDriver_run descending_positions)

section \<open>The point mappings\<close>

text \<open>
  A key that no write has used still holds 0; a key holds the position of the last
  write that used it.
\<close>

lemma byBusTime_unset:
  "\<forall>a\<in>set ws. busTimeKey H (busId a) (timestamp a) \<noteq> k \<Longrightarrow> byBusTime (run H ws) k = 0"
  by (induction ws rule: rev_induct) (auto simp: deployed_def)

lemma byDriverTime_unset:
  "\<forall>a\<in>set ws. driverTimeKey H (driverId a) (timestamp a) \<noteq> k \<Longrightarrow> byDriverTime (run H ws) k = 0"
  by (induction ws rule: rev_induct) (auto simp: deployed_def)

lemma byBusTime_last:
  "\<forall>a\<in>set post. busTimeKey H (busId a) (timestamp a) \<noteq> busTimeKey H (busId w) (timestamp w) \<Longrightarrow>
   byBusTime (run H (pre @ w # post)) (busTimeKey H (busId w) (timestamp w)) = length pre"
proof (induction post rule: rev_induct)
  case Nil
  then show ?case by simp
next
  case (snoc a post)
  have "run H (pre @ w # post @ [a]) = recordCall H a (run H (pre @ w # post))"
    using run_snoc [of H "pre @ w # post" a] by simp
  with snoc show ?case by auto
qed

lemma byDriverTime_last:
  "\<forall>a\<in>set post. driverTimeKey H (driverId a) (timestamp a) \<noteq> driverTimeKey H (driverId w) (timestamp w) \<Longrightarrow>
   byDriverTime (run H (pre @ w # post)) (driverTimeKey H (driverId w) (timestamp w)) = length pre"
proof (induction post rule: rev_induct)
  case Nil
  then show ?case by simp
next
  case (snoc a post)
  have "run H (pre @ w # post @ [a]) = recordCall H a (run H (pre @ w # post))"
    using run_snoc [of H "pre @ w # post" a] by simp
  with snoc show ?case by auto
qed

section \<open>The list queries after a sequence of writes\<close>

text \<open>
  After the calls \<open>ws\<close>, \<open>getDriversByBus b\<close> succeeds and returns the records of the
  index array of \<open>b\<close> read backwards: the index array holds exactly the positions of the
  calls for bus \<open>b\<close>, so the result is exactly the calls for \<open>b\<close>, the latest first, in
  strictly decreasing position. The same for \<open>getBusesByDriver\<close> and the driver. For
  \<open>getAssignmentsByBusDriver\<close> the records returned are those whose pair key equals the
  key of the query.
\<close>

lemma getDriversByBus_descending:
  "getDriversByBus b (run H ws) = Inr (map ((!) ws) (rev (byBus (run H ws) b)))
   \<and> getDriversByBus b (run H ws) = Inr (rev (filter (\<lambda>a. busId a = b) ws))
   \<and> set (byBus (run H ws) b) = {i. i < length ws \<and> busId (ws ! i) = b}
   \<and> sorted_wrt (>) (rev (byBus (run H ws) b))"
  by (simp add: getDriversByBus_run byBus_run set_positions sorted_positions
      sorted_wrt_rev map_nth_positions rev_map [symmetric])

lemma getBusesByDriver_descending:
  "getBusesByDriver d (run H ws) = Inr (map ((!) ws) (rev (byDriver (run H ws) d)))
   \<and> getBusesByDriver d (run H ws) = Inr (rev (filter (\<lambda>a. driverId a = d) ws))
   \<and> set (byDriver (run H ws) d) = {i. i < length ws \<and> driverId (ws ! i) = d}
   \<and> sorted_wrt (>) (rev (byDriver (run H ws) d))"
  by (simp add: getBusesByDriver_run byDriver_run set_positions sorted_positions
      sorted_wrt_rev map_nth_positions rev_map [symmetric])

lemma getAssignmentsByBusDriver_descending:
  "getAssignmentsByBusDriver H b d (run H ws)
     = Inr (map ((!) ws) (rev (byBusDriver (run H ws) (busDriverKey H b d))))
   \<and> getAssignmentsByBusDriver H b d (run H ws)
     = Inr (rev (filter (\<lambda>a. busDriverKey H (busId a) (driverId a) = busDriverKey H b d) ws))
   \<and> set (byBusDriver (run H ws) (busDriverKey H b d))
     = {i. i < length ws \<and> busDriverKey H (busId (ws ! i)) (driverId (ws ! i)) = busDriverKey H b d}
   \<and> sorted_wrt (>) (rev (byBusDriver (run H ws) (busDriverKey H b d)))"
  by (simp add: getAssignmentsByBusDriver_run byBusDriver_run set_positions sorted_positions
      sorted_wrt_rev map_nth_positions rev_map [symmetric])

text \<open>
  A list query for a key that no write has used succeeds with the empty list: a bus of
  no write, a driver of no write, a pair whose composed key is the key of no write.
\<close>

lemma unknown_key_gives_empty_list:
  "((\<forall>a\<in>set ws. busId a \<noteq> b) \<longrightarrow> getDriversByBus b (run H ws) = Inr [])
   \<and> ((\<forall>a\<in>set ws. driverId a \<noteq> d) \<longrightarrow> getBusesByDriver d (run H ws) = Inr [])
   \<and> ((\<forall>a\<in>set ws. busDriverKey H (busId a) (driverId a) \<noteq> busDriverKey H b' d')
        \<longrightarrow> getAssignmentsByBusDriver H b' d' (run H ws) = Inr [])"
  by (simp add: getDriversByBus_run getBusesByDriver_run getAssignmentsByBusDriver_run
      filter_empty_conv)

section \<open>The claims\<close>

text \<open>
  Claim C1 (the pair key of two different pairs with the same concatenation differs).
  The code computes the key of the by-bus-and-driver index as
  \<^verbatim>\<open>keccak256(abi.encodePacked(busId, driverId))\<close>, and the packed encoding of two
  strings is their concatenation. So, whatever the hash function is, the pairs
  ("12", "3") and ("1", "23") have the same key, as have ("A", "BC") and ("AB", "C"):
  after one write for bus "12" and driver "3", the query for bus "1" and driver "23"
  returns that record, and after a write for each pair both ids are in one index array.
\<close>

theorem pair_keys_collide:
  "busDriverKey H ''12'' ''3'' = busDriverKey H ''1'' ''23''
   \<and> busDriverKey H ''A'' ''BC'' = busDriverKey H ''AB'' ''C''
   \<and> getAssignmentsByBusDriver H ''1'' ''23'' (run H [call_12_3]) = Inr [call_12_3]
   \<and> byBusDriver (run H [call_12_3, call_1_23]) (busDriverKey H ''12'' ''3'') = [0, 1]"
  by (simp add: busDriverKey_def encodePacked_string_string_def getAssignmentsByBusDriver_run
      byBusDriver_run positions_def call_12_3_def call_1_23_def)

text \<open>
  Claim C2 (a point lookup of a pair that was never recorded fails). In the code the
  mapping holds 0 for a key that was never written, and 0 is also the id of the first
  record: after the single write for bus "bus-7" at time 1000, the lookups of
  ("unknown", 100) and of ("bus-7", 9999) succeed and return that record. This holds
  for every hash function, since the log has one record and both 0 and the id of that
  record are position 0.
\<close>

theorem unrecorded_point_lookup_returns_a_record:
  "getDriverByBusTime H ''unknown'' 100 (run H [call_a]) = Inr call_a
   \<and> getBusByDriverTime H ''unknown'' 100 (run H [call_a]) = Inr call_a
   \<and> getDriverByBusTime H ''bus-7'' 9999 (run H [call_a]) = Inr call_a"
  by (simp add: getDriverByBusTime_def getBusByDriverTime_def at_index_def
      run_snoc [of H "[]", simplified] deployed_def)

text \<open>
  Claim C3 (point overwrite). Let \<open>w1\<close> and later \<open>w2\<close> be written with the same bus
  and timestamp, with any writes before, between and after them, none of the writes
  after \<open>w2\<close> being for this bus at this timestamp. Then, for a collision-free hash,
  the point mapping holds the id of \<open>w2\<close> (which is larger than the id \<open>length pre\<close> of
  \<open>w1\<close>), \<open>getDriverByBusTime\<close> returns the record of \<open>w2\<close>, and \<open>getDriversByBus\<close>
  still returns the record of \<open>w1\<close> (and that of \<open>w2\<close>).
\<close>

theorem later_write_wins_point_lookup:
  assumes "inj H"
    and "busId w2 = busId w1" and "timestamp w2 = timestamp w1"
    and "\<forall>a\<in>set post. (busId a, timestamp a) \<noteq> (busId w1, timestamp w1)"
  shows "byBusTime (run H (pre @ w1 # mid @ w2 # post)) (busTimeKey H (busId w1) (timestamp w1))
           = length pre + 1 + length mid
       \<and> getDriverByBusTime H (busId w1) (timestamp w1) (run H (pre @ w1 # mid @ w2 # post)) = Inr w2
       \<and> (\<exists>rs. getDriversByBus (busId w1) (run H (pre @ w1 # mid @ w2 # post)) = Inr rs
              \<and> w1 \<in> set rs \<and> w2 \<in> set rs)"
proof -
  let ?ws = "(pre @ w1 # mid) @ w2 # post"
  have "\<forall>a\<in>set post. busTimeKey H (busId a) (timestamp a) \<noteq> busTimeKey H (busId w2) (timestamp w2)"
    using assms by (auto simp: busTimeKey_inj)
  then have "byBusTime (run H ?ws) (busTimeKey H (busId w2) (timestamp w2)) = length (pre @ w1 # mid)"
    by (rule byBusTime_last)
  then have point: "byBusTime (run H ?ws) (busTimeKey H (busId w1) (timestamp w1)) = length pre + 1 + length mid"
    using assms(2,3) by simp
  then have "getDriverByBusTime H (busId w1) (timestamp w1) (run H ?ws) = Inr w2"
    by (simp add: getDriverByBusTime_def at_index_def nth_append)
  moreover have "\<exists>rs. getDriversByBus (busId w1) (run H ?ws) = Inr rs \<and> w1 \<in> set rs \<and> w2 \<in> set rs"
    using assms(2) by (simp add: getDriversByBus_run)
  ultimately show ?thesis using point by simp
qed

theorem later_write_wins_point_lookup_witness:
  "byBusTime (run (\<lambda>x. x) [call_a, call_b, call_c, call_b]) (busTimeKey (\<lambda>x. x) ''bus-7'' 1000) = 2
   \<and> getDriverByBusTime (\<lambda>x. x) ''bus-7'' 1000 (run (\<lambda>x. x) [call_a, call_b, call_c, call_b]) = Inr call_c
   \<and> (\<exists>rs. getDriversByBus ''bus-7'' (run (\<lambda>x. x) [call_a, call_b, call_c, call_b]) = Inr rs
          \<and> call_a \<in> set rs \<and> call_c \<in> set rs)"
  using later_write_wins_point_lookup [of "\<lambda>x. x" call_c call_a "[call_b]" "[]" "[call_b]"]
  by (simp add: call_a_def call_b_def call_c_def)

text \<open>
  Claim C4 (each list query returns exactly the matching records, latest first). For
  \<open>getDriversByBus\<close> and \<open>getBusesByDriver\<close> this is \<open>getDriversByBus_descending\<close> and
  \<open>getBusesByDriver_descending\<close> above. For \<open>getAssignmentsByBusDriver\<close> the order is
  as claimed, but the records are not exactly those of the pair: after two writes for
  bus "12" with driver "3" and one for bus "1" with driver "23", the query for
  ("12", "3") returns all three records, whatever the hash function is.
\<close>

theorem pair_query_returns_other_pairs:
  "getAssignmentsByBusDriver H ''12'' ''3'' (run H [call_12_3, call_12_3, call_1_23])
     = Inr [call_1_23, call_12_3, call_12_3]
   \<and> (busId call_1_23, driverId call_1_23) \<noteq> (''12'', ''3'')"
  by (simp add: busDriverKey_def encodePacked_string_string_def getAssignmentsByBusDriver_run
      call_12_3_def call_1_23_def)

text \<open>
  Claim C5 (index completeness). After any sequence of writes, the id \<open>i\<close> of the
  \<open>i\<close>-th write is in the index array of its bus, of its driver and of its pair key,
  and each of the three list queries, asked for the bus, the driver or the pair of that
  write, succeeds with a list that contains its record.
\<close>

theorem index_completeness:
  assumes "i < length ws"
  shows "i \<in> set (byBus (run H ws) (busId (ws ! i)))
       \<and> i \<in> set (byDriver (run H ws) (driverId (ws ! i)))
       \<and> i \<in> set (byBusDriver (run H ws) (busDriverKey H (busId (ws ! i)) (driverId (ws ! i))))
       \<and> (\<exists>rs. getDriversByBus (busId (ws ! i)) (run H ws) = Inr rs \<and> ws ! i \<in> set rs)
       \<and> (\<exists>rs. getBusesByDriver (driverId (ws ! i)) (run H ws) = Inr rs \<and> ws ! i \<in> set rs)
       \<and> (\<exists>rs. getAssignmentsByBusDriver H (busId (ws ! i)) (driverId (ws ! i)) (run H ws) = Inr rs
              \<and> ws ! i \<in> set rs)"
  using assms
  by (simp add: byBus_run byDriver_run byBusDriver_run set_positions getDriversByBus_run
      getBusesByDriver_run getAssignmentsByBusDriver_run)

theorem index_completeness_witness:
  "1 \<in> set (byBus (run (\<lambda>x. x) [call_a, call_b]) (busId call_b))
       \<and> 1 \<in> set (byDriver (run (\<lambda>x. x) [call_a, call_b]) (driverId call_b))
       \<and> 1 \<in> set (byBusDriver (run (\<lambda>x. x) [call_a, call_b]) (busDriverKey (\<lambda>x. x) (busId call_b) (driverId call_b)))
       \<and> (\<exists>rs. getDriversByBus (busId call_b) (run (\<lambda>x. x) [call_a, call_b]) = Inr rs \<and> call_b \<in> set rs)
       \<and> (\<exists>rs. getBusesByDriver (driverId call_b) (run (\<lambda>x. x) [call_a, call_b]) = Inr rs \<and> call_b \<in> set rs)
       \<and> (\<exists>rs. getAssignmentsByBusDriver (\<lambda>x. x) (busId call_b) (driverId call_b) (run (\<lambda>x. x) [call_a, call_b]) = Inr rs
              \<and> call_b \<in> set rs)"
  using index_completeness [of 1 "[call_a, call_b]" "\<lambda>x. x"] by simp

text \<open>
  Claim C6 (append-only). The record of the \<open>i\<close>-th write is what the getter of the
  array returns at position \<open>i\<close>, right after the writes \<open>ws\<close> and after any further
  writes \<open>later\<close>, with every field as it was written; the further writes leave the
  first \<open>length ws\<close> positions of the array as they were. The queries are functions of
  the state and return no state: they change nothing.
\<close>

theorem appended_record_is_permanent:
  assumes "i < length ws"
  shows "assignments_getter i (run H ws) = Inr (ws ! i)
       \<and> assignments_getter i (run H (ws @ later)) = Inr (ws ! i)
       \<and> take (length ws) (assignments (run H (ws @ later))) = assignments (run H ws)"
  using assms by (simp add: assignments_getter_def nth_append)

theorem appended_record_is_permanent_witness:
  "assignments_getter 0 (run (\<lambda>x. x) [call_a]) = Inr call_a
   \<and> assignments_getter 0 (run (\<lambda>x. x) [call_a, call_b, call_c]) = Inr call_a
   \<and> take 1 (assignments (run (\<lambda>x. x) [call_a, call_b, call_c])) = assignments (run (\<lambda>x. x) [call_a])"
  using appended_record_is_permanent [of 0 "[call_a]" "\<lambda>x. x" "[call_b, call_c]"] by simp

text \<open>
  Claim C7 (ids are 0, 1, 2, ... in call order). After any \<open>ws\<close>, a call of
  \<open>recordAssignment\<close> on any arguments announces the id \<open>length ws\<close> in its event, stores
  its record at that position, and makes the array one longer.
\<close>

theorem sequenceId_is_number_of_earlier_calls:
  "fst (recordAssignment H bus src dst drv ts (run H ws)) = AssignmentRecorded (length ws) bus drv ts
   \<and> assignments_getter (length ws) (snd (recordAssignment H bus src dst drv ts (run H ws)))
       = Inr \<lparr>busId = bus, source = src, destination = dst, driverId = drv, timestamp = ts\<rparr>
   \<and> length (assignments (snd (recordAssignment H bus src dst drv ts (run H ws)))) = Suc (length ws)"
  by (simp add: recordAssignment_def Let_def assignments_getter_def)

text \<open>
  Claim C8 (a list query for an unknown bus, driver or pair gives an empty list, not an
  error, unlike the point lookups). For the bus and for the driver this is
  \<open>unknown_key_gives_empty_list\<close> above. For the pair it fails: after the single write
  for bus "12" and driver "3", no assignment was ever recorded for the pair of bus "1"
  and driver "23", and \<open>getDriversByBus\<close> for "1" and \<open>getBusesByDriver\<close> for "23" return
  the empty list, but \<open>getAssignmentsByBusDriver\<close> for ("1", "23") returns the record of
  bus "12" and driver "3", whatever the hash function is. On the same state the point
  lookup of the unknown bus "1" does not fail either: it returns that record too.
\<close>

theorem never_recorded_pair_gets_a_record:
  "getAssignmentsByBusDriver H ''1'' ''23'' (run H [call_12_3]) = Inr [call_12_3]
   \<and> (busId call_12_3, driverId call_12_3) \<noteq> (''1'', ''23'')
   \<and> getDriversByBus ''1'' (run H [call_12_3]) = Inr []
   \<and> getBusesByDriver ''23'' (run H [call_12_3]) = Inr []
   \<and> getDriverByBusTime H ''1'' 100 (run H [call_12_3]) = Inr call_12_3"
proof -
  have lists: "getAssignmentsByBusDriver H ''1'' ''23'' (run H [call_12_3]) = Inr [call_12_3]
      \<and> (busId call_12_3, driverId call_12_3) \<noteq> (''1'', ''23'')
      \<and> getDriversByBus ''1'' (run H [call_12_3]) = Inr []
      \<and> getBusesByDriver ''23'' (run H [call_12_3]) = Inr []"
    by (simp add: busDriverKey_def encodePacked_string_string_def
        getAssignmentsByBusDriver_run getDriversByBus_run getBusesByDriver_run call_12_3_def)
  have "run H [call_12_3] = recordCall H call_12_3 deployed"
    using run_snoc [of H "[]" call_12_3] by simp
  then have point: "getDriverByBusTime H ''1'' 100 (run H [call_12_3]) = Inr call_12_3"
    by (simp add: getDriverByBusTime_def at_index_def deployed_def)
  from lists point show ?thesis by simp
qed

text \<open>
  Claim C9 (what a point lookup of an unrecorded pair does). For a collision-free hash:
  once at least one record is written, \<open>getDriverByBusTime\<close> for a bus and timestamp of
  no write returns the record at position 0, and so does \<open>getBusByDriverTime\<close> for a
  driver and timestamp of no write; on the empty log both fail on the read of
  position 0.
\<close>

theorem unrecorded_point_lookup_reads_position_0:
  assumes "inj H"
  shows "(ws \<noteq> [] \<and> (\<forall>a\<in>set ws. (busId a, timestamp a) \<noteq> (b, t))
            \<longrightarrow> getDriverByBusTime H b t (run H ws) = Inr (ws ! 0))
       \<and> (ws \<noteq> [] \<and> (\<forall>a\<in>set ws. (driverId a, timestamp a) \<noteq> (d, t'))
            \<longrightarrow> getBusByDriverTime H d t' (run H ws) = Inr (ws ! 0))
       \<and> getDriverByBusTime H b t (run H []) = Inl Panic_ArrayOutOfBounds
       \<and> getBusByDriverTime H d t' (run H []) = Inl Panic_ArrayOutOfBounds"
proof (intro conjI impI)
  assume h: "ws \<noteq> [] \<and> (\<forall>a\<in>set ws. (busId a, timestamp a) \<noteq> (b, t))"
  then have "\<forall>a\<in>set ws. busTimeKey H (busId a) (timestamp a) \<noteq> busTimeKey H b t"
    using assms by (auto simp: busTimeKey_inj)
  then have "byBusTime (run H ws) (busTimeKey H b t) = 0"
    by (rule byBusTime_unset)
  with h show "getDriverByBusTime H b t (run H ws) = Inr (ws ! 0)"
    by (simp add: getDriverByBusTime_def at_index_def)
next
  assume h: "ws \<noteq> [] \<and> (\<forall>a\<in>set ws. (driverId a, timestamp a) \<noteq> (d, t'))"
  then have "\<forall>a\<in>set ws. driverTimeKey H (driverId a) (timestamp a) \<noteq> driverTimeKey H d t'"
    using assms by (auto simp: driverTimeKey_inj)
  then have "byDriverTime (run H ws) (driverTimeKey H d t') = 0"
    by (rule byDriverTime_unset)
  with h show "getBusByDriverTime H d t' (run H ws) = Inr (ws ! 0)"
    by (simp add: getBusByDriverTime_def at_index_def)
next
  show "getDriverByBusTime H b t (run H []) = Inl Panic_ArrayOutOfBounds"
    by (simp add: getDriverByBusTime_def at_index_def deployed_def)
next
  show "getBusByDriverTime H d t' (run H []) = Inl Panic_ArrayOutOfBounds"
    by (simp add: getBusByDriverTime_def at_index_def deployed_def)
qed

theorem unrecorded_point_lookup_reads_position_0_witness:
  "getDriverByBusTime (\<lambda>x. x) ''bus-7'' 9999 (run (\<lambda>x. x) [call_a, call_b]) = Inr call_a
   \<and> getBusByDriverTime (\<lambda>x. x) ''drv-9'' 1000 (run (\<lambda>x. x) [call_a, call_b]) = Inr call_a
   \<and> getDriverByBusTime (\<lambda>x. x) ''bus-7'' 9999 (run (\<lambda>x. x) []) = Inl Panic_ArrayOutOfBounds
   \<and> getBusByDriverTime (\<lambda>x. x) ''drv-9'' 1000 (run (\<lambda>x. x) []) = Inl Panic_ArrayOutOfBounds"
  using unrecorded_point_lookup_reads_position_0
    [of "\<lambda>x. x" "[call_a, call_b]" "''bus-7''" 9999 "''drv-9''" 1000]
  by (simp add: call_a_def call_b_def)

text \<open>
  Claim C10 (the keys of the two point indices do not collide). The timestamp is
  encoded in 32 bytes after the identifier, so the encoding determines both; for an
  injective hash the by-bus-at-time keys, and the by-driver-at-time keys, of two inputs
  are equal only if the identifiers and the timestamps are.
\<close>

theorem time_keys_do_not_collide:
  assumes "inj H"
  shows "(busTimeKey H id1 t1 = busTimeKey H id2 t2 \<longleftrightarrow> id1 = id2 \<and> t1 = t2)
       \<and> (driverTimeKey H id1 t1 = driverTimeKey H id2 t2 \<longleftrightarrow> id1 = id2 \<and> t1 = t2)
       \<and> (encodePacked_string_uint256 id1 t1 = encodePacked_string_uint256 id2 t2
            \<longleftrightarrow> id1 = id2 \<and> t1 = t2)"
  using assms by (simp add: busTimeKey_inj driverTimeKey_inj encodePacked_string_uint256_eq_iff)

theorem time_keys_do_not_collide_witness:
  "busTimeKey (\<lambda>x. x) ''12'' 3 \<noteq> busTimeKey (\<lambda>x. x) ''1'' 23
   \<and> driverTimeKey (\<lambda>x. x) ''12'' 3 \<noteq> driverTimeKey (\<lambda>x. x) ''1'' 23
   \<and> encodePacked_string_uint256 ''12'' 3 \<noteq> encodePacked_string_uint256 ''1'' 23"
  using time_keys_do_not_collide [of "\<lambda>x. x" "''12''" 3 "''1''" 23] by simp

end
